theory Spec2Isabelle
  imports Main "HOL-Library.Multiset"
begin

section \<open>JavaScript values\<close>

text \<open>
  The handlers work on values parsed from JSON (the request body, the stored document).
  \<open>JUndef\<close> is JavaScript's \<open>undefined\<close> (a missing property), \<open>JNum\<close> an
  integer-valued number, \<open>JStr\<close> a string whose code units are below 256 (Latin-1),
  \<open>JObj\<close> an object as its own properties in insertion order (JavaScript lists
  integer-like keys first; no property below depends on the order of keys).
\<close>

datatype json =
    JUndef
  | JNull
  | JBool bool
  | JNum int
  | JStr string
  | JArr "json list"
  | JObj "(string \<times> json) list"

datatype exn = TypeError | SyntaxError | NetworkError

text \<open>Truthiness: \<open>undefined\<close>, \<open>null\<close>, \<open>false\<close>, \<open>0\<close> and \<open>""\<close> are falsy.\<close>

fun truthy :: "json \<Rightarrow> bool" where
  "truthy JUndef = False"
| "truthy JNull = False"
| "truthy (JBool b) = b"
| "truthy (JNum n) = (n \<noteq> 0)"
| "truthy (JStr s) = (s \<noteq> [])"
| "truthy (JArr xs) = True"
| "truthy (JObj kvs) = True"

text \<open>\<open>a || b\<close> on values.\<close>

definition or_else :: "json \<Rightarrow> json \<Rightarrow> json" where
  "or_else a b = (if truthy a then a else b)"

text \<open>\<open>Array.isArray\<close>.\<close>

fun isArray :: "json \<Rightarrow> bool" where
  "isArray (JArr xs) = True"
| "isArray v = False"

fun nullish :: "json \<Rightarrow> bool" where
  "nullish JUndef = True"
| "nullish JNull = True"
| "nullish v = False"

text \<open>
  \<open>a === b\<close>. Primitives compare by value. Objects and arrays compare by reference,
  and two values that come from different places of parsed JSON are never the same
  reference.
\<close>

fun strict_eq :: "json \<Rightarrow> json \<Rightarrow> bool" where
  "strict_eq JUndef JUndef = True"
| "strict_eq JNull JNull = True"
| "strict_eq (JBool a) (JBool b) = (a = b)"
| "strict_eq (JNum a) (JNum b) = (a = b)"
| "strict_eq (JStr a) (JStr b) = (a = b)"
| "strict_eq a b = False"

subsection \<open>Decimal numerals\<close>

definition digit_char :: "nat \<Rightarrow> char" where
  "digit_char d = char_of (48 + d)"

fun show_nat :: "nat \<Rightarrow> string" where
  "show_nat n = (if n < 10 then [digit_char n] else show_nat (n div 10) @ [digit_char (n mod 10)])"

declare show_nat.simps [simp del]

definition show_int :: "int \<Rightarrow> string" where
  "show_int i = (if i < 0 then CHR ''-'' # show_nat (nat (- i)) else show_nat (nat i))"

subsection \<open>Property access\<close>

text \<open>
  \<open>v.k\<close> for the property names the handlers read (\<open>id\<close>, \<open>name\<close>, \<open>sha\<close>, ...):
  an own property of an object, \<open>undefined\<close> on every other value but \<open>null\<close> and
  \<open>undefined\<close>, where the access throws. \<open>field\<close> is the access where it cannot throw.
\<close>

fun field :: "json \<Rightarrow> string \<Rightarrow> json" where
  "field (JObj kvs) k = (case map_of kvs k of Some v \<Rightarrow> v | None \<Rightarrow> JUndef)"
| "field v k = JUndef"

definition get_prop :: "json \<Rightarrow> string \<Rightarrow> exn + json" where
  "get_prop v k = (if nullish v then Inl TypeError else Inr (field v k))"

text \<open>\<open>p[i]\<close> on an array.\<close>

definition at_index :: "json list \<Rightarrow> nat \<Rightarrow> json" where
  "at_index xs i = (if i < length xs then xs ! i else JUndef)"

subsection \<open>Conversion to string\<close>

fun join_with :: "string \<Rightarrow> string list \<Rightarrow> string" where
  "join_with sep [] = []"
| "join_with sep [x] = x"
| "join_with sep (x # y # ys) = x @ sep @ join_with sep (y # ys)"

text \<open>\<open>String(v)\<close>; an array joins its elements with commas, \<open>null\<close> and \<open>undefined\<close>
  elements as empty strings.\<close>

fun js_String :: "json \<Rightarrow> string" where
  "js_String JUndef = ''undefined''"
| "js_String JNull = ''null''"
| "js_String (JBool b) = (if b then ''true'' else ''false'')"
| "js_String (JNum n) = show_int n"
| "js_String (JStr s) = s"
| "js_String (JArr xs) = join_with '','' (map (\<lambda>x. if nullish x then [] else js_String x) xs)"
| "js_String (JObj kvs) = ''[object Object]''"

section \<open>Strings\<close>

definition char_code :: "char \<Rightarrow> nat" where
  "char_code c = of_char c"

text \<open>\<open>toLowerCase\<close> on Latin-1: A-Z and the accented capitals (all of 192..222 but the
  multiplication sign 215) move up by 32.\<close>

definition lower_char :: "char \<Rightarrow> char" where
  "lower_char c =
     (if (65 \<le> char_code c \<and> char_code c \<le> 90) \<or> (192 \<le> char_code c \<and> char_code c \<le> 222 \<and> char_code c \<noteq> 215)
      then char_of (char_code c + 32) else c)"

definition toLowerCase :: "string \<Rightarrow> string" where
  "toLowerCase s = map lower_char s"

text \<open>White space of \<open>trim\<close> below 256: tab, line feed, vertical tab, form feed,
  carriage return, space, no-break space.\<close>

definition is_space :: "char \<Rightarrow> bool" where
  "is_space c = (char_code c \<in> {9, 10, 11, 12, 13, 32, 160})"

definition trim :: "string \<Rightarrow> string" where
  "trim s = rev (dropWhile is_space (rev (dropWhile is_space s)))"

text \<open>The class \<open>[a-z0-9]\<close>.\<close>

definition is_alnum :: "char \<Rightarrow> bool" where
  "is_alnum c = ((97 \<le> char_code c \<and> char_code c \<le> 122) \<or> (48 \<le> char_code c \<and> char_code c \<le> 57))"

text \<open>\<open>.replace(/[^a-z0-9]+/g, "-")\<close>: every maximal run of characters outside the
  class becomes one hyphen.\<close>

function replace_runs :: "string \<Rightarrow> string" where
  "replace_runs [] = []"
| "replace_runs (c # cs) =
     (if is_alnum c then c # replace_runs cs
      else CHR ''-'' # replace_runs (dropWhile (\<lambda>d. \<not> is_alnum d) cs))"
  by pat_completeness auto
termination
  by (relation "measure length") (auto simp: length_dropWhile_le less_Suc_eq_le)

text \<open>\<open>.replace(/(^-|-$)/g, "")\<close>: a hyphen at the start is removed, and a hyphen at the
  end of what is left.\<close>

definition strip_ends :: "string \<Rightarrow> string" where
  "strip_ends s =
     (let s1 = (case s of c # cs \<Rightarrow> if c = CHR ''-'' then cs else s | [] \<Rightarrow> [])
      in if s1 \<noteq> [] \<and> last s1 = CHR ''-'' then butlast s1 else s1)"

text \<open>The batch handler's \<open>slug\<close>.\<close>

definition slug :: "json \<Rightarrow> string" where
  "slug s = strip_ends (replace_runs (trim (toLowerCase (js_String (or_else s (JStr []))))))"

text \<open>The single-recipe handler's \<open>slugify\<close>.\<close>

definition slugify :: "json \<Rightarrow> string" where
  "slugify s = strip_ends (replace_runs (toLowerCase (js_String s)))"

section \<open>Normalizing a raw recipe\<close>

text \<open>\<open>Array.isArray(v) ? v : (v ? [v] : [])\<close>, used for \<open>profile\<close> and \<open>tags\<close>.\<close>

definition wrap_array :: "json \<Rightarrow> json" where
  "wrap_array v = (if isArray v then v else if truthy v then JArr [v] else JArr [])"

text \<open>\<open>v.map(f)\<close>: only an array has a \<open>map\<close> method; on any other value the call
  throws a TypeError.\<close>

fun map_array :: "(json \<Rightarrow> json) \<Rightarrow> json \<Rightarrow> exn + json" where
  "map_array f (JArr xs) = Inr (JArr (map f xs))"
| "map_array f v = Inl TypeError"

text \<open>One element of \<open>ingredients\<close> in the batch handler: a pair, an object with
  \<open>amount\<close> and \<open>item\<close>, or anything else as the item's text.\<close>

fun ingredient_pair :: "json \<Rightarrow> json" where
  "ingredient_pair (JArr p) =
     JArr [or_else (at_index p 0) (JStr []), or_else (at_index p 1) (JStr [])]"
| "ingredient_pair (JObj kvs) =
     JArr [or_else (field (JObj kvs) ''amount'') (JStr []),
           or_else (field (JObj kvs) ''item'') (JStr [])]"
| "ingredient_pair p = JArr [JStr [], JStr (js_String (or_else p (JStr [])))]"

definition lower_base :: "json \<Rightarrow> json" where
  "lower_base b = JStr (toLowerCase (js_String b))"

text \<open>The batch handler's \<open>normalize\<close>. The first property read throws on \<open>null\<close> and
  \<open>undefined\<close>; \<open>(r.base || []).map\<close> throws when \<open>base\<close> is truthy and no array.\<close>

definition normalize_raw :: "json \<Rightarrow> exn + json" where
  "normalize_raw r =
     (if nullish r then Inl TypeError
      else
        let profileArr = wrap_array (field r ''profile'');
            ingredientsArr =
              (case field r ''ingredients'' of
                 JArr ps \<Rightarrow> JArr (map ingredient_pair ps)
               | _ \<Rightarrow> JArr [])
        in case map_array lower_base (or_else (field r ''base'') (JArr [])) of
             Inl e \<Rightarrow> Inl e
           | Inr base \<Rightarrow>
               Inr (JObj
                 [(''id'', or_else (field r ''id'') (JStr (slug (field r ''name'')))),
                  (''name'', field r ''name''),
                  (''base'', base),
                  (''profile'', profileArr),
                  (''sweetness'', or_else (field r ''sweetness'') (JStr ''balanced'')),
                  (''ingredients'', ingredientsArr),
                  (''method'', or_else (field r ''method'') (JStr [])),
                  (''glass'', or_else (field r ''glass'') (JStr [])),
                  (''garnish'', or_else (field r ''garnish'') (JStr [])),
                  (''tags'', wrap_array (field r ''tags''))]))"

text \<open>One element of \<open>ingredients\<close> in the single-recipe handler: an array is kept as it
  is, on anything else \<open>amount\<close> and \<open>item\<close> are read (which throws on \<open>null\<close>).\<close>

definition ingredient_pair1 :: "json \<Rightarrow> exn + json" where
  "ingredient_pair1 p =
     (if isArray p then Inr p
      else if nullish p then Inl TypeError
      else Inr (JArr [or_else (field p ''amount'') (JStr []),
                      or_else (field p ''item'') (JStr [])]))"

fun map_throwing :: "(json \<Rightarrow> exn + json) \<Rightarrow> json list \<Rightarrow> exn + json list" where
  "map_throwing f [] = Inr []"
| "map_throwing f (x # xs) =
     (case f x of
        Inl e \<Rightarrow> Inl e
      | Inr y \<Rightarrow> (case map_throwing f xs of Inl e \<Rightarrow> Inl e | Inr ys \<Rightarrow> Inr (y # ys)))"

text \<open>The object \<open>normalized\<close> that the single-recipe handler builds from \<open>recipe\<close>; its
  id is always the slug of the name.\<close>

definition normalized :: "json \<Rightarrow> exn + json" where
  "normalized recipe =
     (if nullish recipe then Inl TypeError
      else
        case map_array lower_base (or_else (field recipe ''base'') (JArr [])) of
          Inl e \<Rightarrow> Inl e
        | Inr base \<Rightarrow>
            (case or_else (field recipe ''ingredients'') (JArr []) of
               JArr ps \<Rightarrow>
                 (case map_throwing ingredient_pair1 ps of
                    Inl e \<Rightarrow> Inl e
                  | Inr ings \<Rightarrow>
                      Inr (JObj
                        [(''id'', JStr (slugify (field recipe ''name''))),
                         (''name'', field recipe ''name''),
                         (''base'', base),
                         (''profile'', wrap_array (field recipe ''profile'')),
                         (''sweetness'', or_else (field recipe ''sweetness'') (JStr ''balanced'')),
                         (''ingredients'', JArr ings),
                         (''method'', or_else (field recipe ''method'') (JStr [])),
                         (''glass'', or_else (field recipe ''glass'') (JStr [])),
                         (''garnish'', or_else (field recipe ''garnish'') (JStr [])),
                         (''tags'', or_else (field recipe ''tags'') (JArr []))]))
             | _ \<Rightarrow> Inl TypeError))"

section \<open>Merging into the collection\<close>

text \<open>The own enumerable properties that an object spread copies: an object's
  properties, an array's elements and a string's characters under their indices,
  nothing for the other values.\<close>

fun own_props :: "json \<Rightarrow> (string \<times> json) list" where
  "own_props (JObj kvs) = kvs"
| "own_props (JArr xs) = zip (map show_nat [0..<length xs]) xs"
| "own_props (JStr s) = zip (map show_nat [0..<length s]) (map (\<lambda>c. JStr [c]) s)"
| "own_props v = []"

text \<open>Assigning a property: an existing key keeps its place, a new key goes last.\<close>

fun set_prop :: "string \<Rightarrow> json \<Rightarrow> (string \<times> json) list \<Rightarrow> (string \<times> json) list" where
  "set_prop k v [] = [(k, v)]"
| "set_prop k v ((k', v') # kvs) =
     (if k' = k then (k, v) # kvs else (k', v') # set_prop k v kvs)"

text \<open>\<open>{ ...a, ...b }\<close>.\<close>

definition spread :: "json \<Rightarrow> json \<Rightarrow> json" where
  "spread a b = JObj (foldl (\<lambda>acc kv. set_prop (fst kv) (snd kv) acc) (own_props a) (own_props b))"

text \<open>\<open>list.findIndex(p)\<close> with a predicate that may throw.\<close>

fun findIndex :: "(json \<Rightarrow> exn + bool) \<Rightarrow> json list \<Rightarrow> exn + nat option" where
  "findIndex p [] = Inr None"
| "findIndex p (x # xs) =
     (case p x of
        Inl e \<Rightarrow> Inl e
      | Inr True \<Rightarrow> Inr (Some 0)
      | Inr False \<Rightarrow>
          (case findIndex p xs of
             Inl e \<Rightarrow> Inl e
           | Inr None \<Rightarrow> Inr None
           | Inr (Some i) \<Rightarrow> Inr (Some (Suc i))))"

text \<open>The batch handler's \<open>findId\<close>: \<open>x.id || slug(x.name || "")\<close>.\<close>

definition findId :: "json \<Rightarrow> exn + json" where
  "findId x =
     (if nullish x then Inl TypeError
      else Inr (or_else (field x ''id'') (JStr (slug (or_else (field x ''name'') (JStr []))))))"

definition matches :: "json \<Rightarrow> json \<Rightarrow> exn + bool" where
  "matches nid x = (case findId x of Inl e \<Rightarrow> Inl e | Inr i \<Rightarrow> Inr (strict_eq i nid))"

text \<open>\<open>!raw || !raw.name\<close> is the loop's test for an input to skip.\<close>

definition usable :: "json \<Rightarrow> bool" where
  "usable raw = (truthy raw \<and> truthy (field raw ''name''))"

text \<open>The body of the loop for one usable input: the collection after the upsert.\<close>

definition upsert :: "json list \<Rightarrow> json \<Rightarrow> exn + json list" where
  "upsert list n =
     (case findIndex (matches (field n ''id'')) list of
        Inl e \<Rightarrow> Inl e
      | Inr (Some idx) \<Rightarrow> Inr (list[idx := spread (list ! idx) n])
      | Inr None \<Rightarrow> Inr (list @ [n]))"

text \<open>The loop over \<open>incoming\<close>, with the collection, \<open>upserted\<close> and \<open>upsertIds\<close> as
  its state.\<close>

fun upsert_all :: "json list \<Rightarrow> nat \<Rightarrow> json list \<Rightarrow> json list \<Rightarrow> exn + (json list \<times> nat \<times> json list)" where
  "upsert_all list upserted upsertIds [] = Inr (list, upserted, upsertIds)"
| "upsert_all list upserted upsertIds (raw # rest) =
     (if \<not> usable raw then upsert_all list upserted upsertIds rest
      else
        case normalize_raw raw of
          Inl e \<Rightarrow> Inl e
        | Inr n \<Rightarrow>
            (case upsert list n of
               Inl e \<Rightarrow> Inl e
             | Inr list' \<Rightarrow> upsert_all list' (upserted + 1) (upsertIds @ [field n ''id'']) rest))"

section \<open>Sorting by name\<close>

text \<open>
  The comparator \<open>(a, b) => (a.name || "").localeCompare(b.name || "")\<close>. Reading
  \<open>name\<close> throws on \<open>null\<close>; only a string has \<open>localeCompare\<close>, which converts its
  argument to a string. The collation itself is the platform's, a parameter here.
\<close>

definition compare_names :: "(string \<Rightarrow> string \<Rightarrow> int) \<Rightarrow> json \<Rightarrow> json \<Rightarrow> exn + int" where
  "compare_names lc a b =
     (if nullish a \<or> nullish b then Inl TypeError
      else
        case or_else (field a ''name'') (JStr []) of
          JStr s \<Rightarrow> Inr (lc s (js_String (or_else (field b ''name'') (JStr []))))
        | _ \<Rightarrow> Inl TypeError)"

text \<open>
  \<open>Array.prototype.sort\<close> is stable; which pairs it compares is left to the engine.
  The model is the stable insertion sort from left to right, which makes no comparison
  on a list of fewer than two elements.
\<close>

fun insert_sorted :: "(json \<Rightarrow> json \<Rightarrow> exn + int) \<Rightarrow> json \<Rightarrow> json list \<Rightarrow> exn + json list" where
  "insert_sorted cmp x [] = Inr [x]"
| "insert_sorted cmp x (y # ys) =
     (case cmp y x of
        Inl e \<Rightarrow> Inl e
      | Inr c \<Rightarrow>
          if c \<le> 0
          then (case insert_sorted cmp x ys of Inl e \<Rightarrow> Inl e | Inr zs \<Rightarrow> Inr (y # zs))
          else Inr (x # y # ys))"

fun sort_into :: "(json \<Rightarrow> json \<Rightarrow> exn + int) \<Rightarrow> json list \<Rightarrow> json list \<Rightarrow> exn + json list" where
  "sort_into cmp acc [] = Inr acc"
| "sort_into cmp acc (x # xs) =
     (case insert_sorted cmp x acc of Inl e \<Rightarrow> Inl e | Inr acc' \<Rightarrow> sort_into cmp acc' xs)"

definition sort_by_name :: "(string \<Rightarrow> string \<Rightarrow> int) \<Rightarrow> json list \<Rightarrow> exn + json list" where
  "sort_by_name lc list = sort_into (compare_names lc) [] list"

section \<open>The request, the configuration and the remote store\<close>

record request =
  req_method :: string
  req_origin :: "string option"
  req_body :: json

text \<open>The environment variables; \<open>None\<close> is an unset variable.\<close>

record env =
  ADMIN_PASSWORD :: "string option"
  GH_TOKEN :: "string option"
  GH_OWNER :: "string option"
  GH_REPO :: "string option"
  GH_BRANCH :: "string option"
  GH_FILE :: "string option"
  ALLOWED_ORIGIN :: "string option"

text \<open>An HTTP response of the store: its status, its body parsed as JSON (\<open>None\<close> when
  \<open>json()\<close> throws) and its body as text.\<close>

record http_res =
  res_status :: nat
  res_json :: "json option"
  res_text :: string

text \<open>What the store answers to the handler's two calls; \<open>None\<close> is a \<open>fetch\<close> that
  rejects.\<close>

record remote =
  get_result :: "http_res option"
  put_result :: "http_res option"

text \<open>
  The platform's functions: the collation of \<open>localeCompare\<close>,
  \<open>Buffer.from(v, "base64").toString("utf-8")\<close> (\<open>None\<close> when \<open>Buffer.from\<close> throws) and
  \<open>JSON.parse\<close> (\<open>None\<close> when it throws).
\<close>

record platform =
  localeCompare :: "string \<Rightarrow> string \<Rightarrow> int"
  decode_base64 :: "json \<Rightarrow> string option"
  JSON_parse :: "string \<Rightarrow> json option"

text \<open>The body of the commit request. \<open>pb_content\<close> is the collection that the handler
  serializes (pretty-printed JSON, then base64) into \<open>content\<close>; \<open>pb_sha\<close> is \<open>None\<close>
  when the request has no \<open>sha\<close> property.\<close>

record put_body =
  pb_message :: string
  pb_content :: "json list"
  pb_branch :: string
  pb_sha :: "json option"

text \<open>The calls made to the store, in order: the read of a path on a branch, the write
  to a path.\<close>

datatype store_call = Get string string | Put string put_body

record response =
  status :: nat
  payload :: "json option"

definition json_error :: "nat \<Rightarrow> string \<Rightarrow> response" where
  "json_error st e = \<lparr>status = st, payload = Some (JObj [(''error'', JStr e)])\<rparr>"

definition json_error_detail :: "nat \<Rightarrow> string \<Rightarrow> string \<Rightarrow> response" where
  "json_error_detail st e d =
     \<lparr>status = st, payload = Some (JObj [(''error'', JStr e), (''detail'', JStr d)])\<rparr>"

text \<open>The \<open>catch\<close> around the handler's body.\<close>

definition server_error :: response where
  "server_error = json_error 500 ''server-error''"

definition env_value :: "string option \<Rightarrow> json" where
  "env_value v = (case v of None \<Rightarrow> JUndef | Some s \<Rightarrow> JStr s)"

definition env_or :: "string option \<Rightarrow> string \<Rightarrow> string" where
  "env_or v d = (case v of None \<Rightarrow> d | Some s \<Rightarrow> if s = [] then d else s)"

text \<open>\<open>!password || password !== process.env.ADMIN_PASSWORD\<close> is the test that rejects;
  this is its negation.\<close>

definition authorized :: "env \<Rightarrow> json \<Rightarrow> bool" where
  "authorized e password =
     (\<not> (\<not> truthy password \<or> \<not> strict_eq password (env_value (ADMIN_PASSWORD e))))"

definition missing_config :: "env \<Rightarrow> bool" where
  "missing_config e = (env_or (GH_OWNER e) [] = [] \<or> env_or (GH_REPO e) [] = [] \<or> env_or (GH_TOKEN e) [] = [])"

definition file_path :: "env \<Rightarrow> string" where
  "file_path e = env_or (GH_FILE e) ''custom-recipes.json''"

definition branch_name :: "env \<Rightarrow> string" where
  "branch_name e = env_or (GH_BRANCH e) ''main''"

text \<open>\<open>req.body || {}\<close>, from which \<open>password\<close>, \<open>recipe\<close> and \<open>recipes\<close> are read.\<close>

definition body_of :: "request \<Rightarrow> json" where
  "body_of req = or_else (req_body req) (JObj [])"

section \<open>The batch handler\<close>

text \<open>What the read of the existing file leaves: the \<open>sha\<close> and the list, or the
  response for a failed read.\<close>

datatype fetched = Loaded json "json list" | ReadFailed string

text \<open>\<open>JSON.parse\<close> of the content inside its own \<open>try\<close>: anything but an array, and a
  parse that throws, is the empty list.\<close>

definition parse_list :: "platform \<Rightarrow> string \<Rightarrow> json list" where
  "parse_list pf content = (case JSON_parse pf content of Some (JArr xs) \<Rightarrow> xs | _ \<Rightarrow> [])"

definition fetch_existing :: "platform \<Rightarrow> remote \<Rightarrow> exn + fetched" where
  "fetch_existing pf rem =
     (case get_result rem of
        None \<Rightarrow> Inl NetworkError
      | Some getRes \<Rightarrow>
          if res_status getRes = 200 then
            (case res_json getRes of
               None \<Rightarrow> Inl SyntaxError
             | Some body \<Rightarrow>
                 if nullish body then Inl TypeError
                 else
                   (case decode_base64 pf (or_else (field body ''content'') (JStr [])) of
                      None \<Rightarrow> Inl TypeError
                    | Some content \<Rightarrow> Inr (Loaded (field body ''sha'') (parse_list pf content))))
          else if res_status getRes \<noteq> 404 then Inr (ReadFailed (res_text getRes))
          else Inr (Loaded JNull []))"

text \<open>The list of raw inputs: \<open>recipes\<close> when it is an array, else \<open>recipe\<close> alone when
  it is truthy.\<close>

definition incoming_of :: "json \<Rightarrow> json list" where
  "incoming_of body =
     (case field body ''recipes'' of
        JArr xs \<Rightarrow> xs
      | _ \<Rightarrow> if truthy (field body ''recipe'') then [field body ''recipe''] else [])"

text \<open>\<open>incoming[0]?.name || "1 item"\<close> in the commit message.\<close>

definition first_name :: "json list \<Rightarrow> json" where
  "first_name incoming =
     or_else (case incoming of [] \<Rightarrow> JUndef | r # _ \<Rightarrow> if nullish r then JUndef else field r ''name'')
       (JStr ''1 item'')"

definition commit_message :: "nat \<Rightarrow> json list \<Rightarrow> string" where
  "commit_message upserted incoming =
     (if upserted = 1 then ''Upsert recipe: '' @ js_String (first_name incoming)
      else ''Upsert '' @ show_nat upserted @ '' recipes'')"

definition success :: "nat \<Rightarrow> json list \<Rightarrow> response" where
  "success upserted upsertIds =
     \<lparr>status = 200,
      payload = Some (JObj [(''ok'', JBool True), (''count'', JNum (int upserted)),
                            (''ids'', JArr upsertIds)])\<rparr>"

text \<open>Sorting and committing, after the loop.\<close>

definition commit :: "platform \<Rightarrow> env \<Rightarrow> remote \<Rightarrow> json \<Rightarrow> json list \<Rightarrow> nat \<Rightarrow> json list \<Rightarrow> json list
    \<Rightarrow> response \<times> store_call list" where
  "commit pf e rem sha list upserted upsertIds incoming =
     (let got = [Get (file_path e) (branch_name e)] in
      case sort_by_name (localeCompare pf) list of
        Inl ex \<Rightarrow> (server_error, got)
      | Inr ordered \<Rightarrow>
          let putBody = \<lparr>pb_message = commit_message upserted incoming,
                         pb_content = ordered,
                         pb_branch = branch_name e,
                         pb_sha = (if truthy sha then Some sha else None)\<rparr>;
              calls = got @ [Put (file_path e) putBody]
          in case put_result rem of
               None \<Rightarrow> (server_error, calls)
             | Some putRes \<Rightarrow>
                 if res_status putRes < 200 \<or> res_status putRes \<ge> 300
                 then (json_error_detail 500 ''github-write-failed'' (res_text putRes), calls)
                 else (success upserted upsertIds, calls))"

text \<open>The handler after the authentication: input, configuration, read, loop, commit.\<close>

definition process :: "platform \<Rightarrow> env \<Rightarrow> remote \<Rightarrow> json \<Rightarrow> response \<times> store_call list" where
  "process pf e rem body =
     (let incoming = incoming_of body in
      if incoming = [] then (json_error 400 ''no-recipes'', [])
      else if missing_config e then (json_error 500 ''missing-github-config'', [])
      else
        case fetch_existing pf rem of
          Inl ex \<Rightarrow> (server_error, [Get (file_path e) (branch_name e)])
        | Inr (ReadFailed detail) \<Rightarrow>
            (json_error_detail 500 ''github-read-failed'' detail, [Get (file_path e) (branch_name e)])
        | Inr (Loaded sha list) \<Rightarrow>
            (case upsert_all list 0 [] incoming of
               Inl ex \<Rightarrow> (server_error, [Get (file_path e) (branch_name e)])
             | Inr (list', upserted, upsertIds) \<Rightarrow>
                 commit pf e rem sha list' upserted upsertIds incoming))"

text \<open>\<open>allowed && origin && origin !== allowed\<close>, with \<open>origin = req.headers.origin || ""\<close>
  and \<open>allowed = process.env.ALLOWED_ORIGIN || ""\<close>.\<close>

definition forbidden_origin :: "env \<Rightarrow> request \<Rightarrow> bool" where
  "forbidden_origin e req =
     (let origin = env_or (req_origin req) [];
          allowed = env_or (ALLOWED_ORIGIN e) []
      in allowed \<noteq> [] \<and> origin \<noteq> [] \<and> origin \<noteq> allowed)"

text \<open>The batch handler: the response and the calls made to the store.\<close>

definition handler :: "platform \<Rightarrow> env \<Rightarrow> remote \<Rightarrow> request \<Rightarrow> response \<times> store_call list" where
  "handler pf e rem req =
     (if req_method req = ''OPTIONS'' then (\<lparr>status = 200, payload = None\<rparr>, [])
      else if req_method req \<noteq> ''POST'' then (json_error 405 ''method-not-allowed'', [])
      else if forbidden_origin e req then (json_error 403 ''forbidden-origin'', [])
      else if \<not> authorized e (field (body_of req) ''password'')
      then (json_error 401 ''unauthorized'', [])
      else process pf e rem (body_of req))"

section \<open>The single-recipe handler\<close>

text \<open>The read of the existing file in \<open>save-recipe.js\<close>: \<open>body.content\<close> goes to
  \<open>Buffer.from\<close> as it is.\<close>

definition fetch_existing1 :: "platform \<Rightarrow> remote \<Rightarrow> exn + fetched" where
  "fetch_existing1 pf rem =
     (case get_result rem of
        None \<Rightarrow> Inl NetworkError
      | Some getRes \<Rightarrow>
          if res_status getRes = 200 then
            (case res_json getRes of
               None \<Rightarrow> Inl SyntaxError
             | Some body \<Rightarrow>
                 if nullish body then Inl TypeError
                 else
                   (case decode_base64 pf (field body ''content'') of
                      None \<Rightarrow> Inl TypeError
                    | Some content \<Rightarrow> Inr (Loaded (field body ''sha'') (parse_list pf content))))
          else if res_status getRes = 404 then Inr (Loaded JNull [])
          else Inr (ReadFailed (res_text getRes)))"

text \<open>The predicate of its \<open>findIndex\<close>: \<open>(r.id || slugify(r.name || "")) === slug\<close>.\<close>

definition matches1 :: "string \<Rightarrow> json \<Rightarrow> exn + bool" where
  "matches1 sl r =
     (if nullish r then Inl TypeError
      else Inr (strict_eq (or_else (field r ''id'') (JStr (slugify (or_else (field r ''name'') (JStr [])))))
                  (JStr sl)))"

text \<open>The upsert of \<open>normalized\<close>: the collection after it, and whether a record was
  found (\<open>idx >= 0\<close>).\<close>

definition upsert1 :: "json list \<Rightarrow> string \<Rightarrow> json \<Rightarrow> exn + (json list \<times> bool)" where
  "upsert1 list sl n =
     (case findIndex (matches1 sl) list of
        Inl e \<Rightarrow> Inl e
      | Inr (Some idx) \<Rightarrow> Inr (list[idx := spread (list ! idx) n], True)
      | Inr None \<Rightarrow> Inr (list @ [n], False))"

definition commit1 :: "platform \<Rightarrow> env \<Rightarrow> remote \<Rightarrow> json \<Rightarrow> json list \<Rightarrow> bool \<Rightarrow> json \<Rightarrow> string
    \<Rightarrow> response \<times> store_call list" where
  "commit1 pf e rem sha list found n sl =
     (let got = [Get (file_path e) (branch_name e)] in
      case sort_by_name (localeCompare pf) list of
        Inl ex \<Rightarrow> (server_error, got)
      | Inr ordered \<Rightarrow>
          let msg = (if found then ''Update recipe: '' else ''Add recipe: '') @ js_String (field n ''name'');
              putBody = \<lparr>pb_message = msg, pb_content = ordered, pb_branch = branch_name e,
                         pb_sha = (if truthy sha then Some sha else None)\<rparr>;
              calls = got @ [Put (file_path e) putBody]
          in case put_result rem of
               None \<Rightarrow> (server_error, calls)
             | Some putRes \<Rightarrow>
                 if res_status putRes \<ge> 200 \<and> res_status putRes < 300
                 then (\<lparr>status = 200, payload = Some (JObj [(''ok'', JBool True), (''id'', JStr sl)])\<rparr>, calls)
                 else (json_error_detail 500 ''github-write-failed'' (res_text putRes), calls))"

definition process1 :: "platform \<Rightarrow> env \<Rightarrow> remote \<Rightarrow> json \<Rightarrow> response \<times> store_call list" where
  "process1 pf e rem recipe =
     (if \<not> truthy recipe \<or> \<not> truthy (field recipe ''name'') then (json_error 400 ''bad-recipe'', [])
      else
        case normalized recipe of
          Inl ex \<Rightarrow> (server_error, [])
        | Inr n \<Rightarrow>
            if missing_config e then (json_error 500 ''missing-github-config'', [])
            else
              (case fetch_existing1 pf rem of
                 Inl ex \<Rightarrow> (server_error, [Get (file_path e) (branch_name e)])
               | Inr (ReadFailed detail) \<Rightarrow>
                   (json_error_detail 500 ''github-read-failed'' detail,
                    [Get (file_path e) (branch_name e)])
               | Inr (Loaded sha list) \<Rightarrow>
                   (case upsert1 list (slugify (field recipe ''name'')) n of
                      Inl ex \<Rightarrow> (server_error, [Get (file_path e) (branch_name e)])
                    | Inr (list', found) \<Rightarrow>
                        commit1 pf e rem sha list' found n (slugify (field recipe ''name'')))))"

text \<open>The single-recipe handler of \<open>save-recipe.js\<close>.\<close>

definition handler1 :: "platform \<Rightarrow> env \<Rightarrow> remote \<Rightarrow> request \<Rightarrow> response \<times> store_call list" where
  "handler1 pf e rem req =
     (if req_method req = ''OPTIONS'' then (\<lparr>status = 200, payload = None\<rparr>, [])
      else if req_method req \<noteq> ''POST'' then (json_error 405 ''method-not-allowed'', [])
      else if \<not> authorized e (field (body_of req) ''password'')
      then (json_error 401 ''unauthorized'', [])
      else process1 pf e rem (field (body_of req) ''recipe''))"

section \<open>The specification's slug\<close>

text \<open>
  The specification describes the slug in words: lowercase, trim, collapse every run of
  non-alphanumeric characters to a single hyphen, strip leading and trailing hyphens.
  These definitions follow the words, not the regular expressions of the code.
\<close>

fun collapse_runs :: "string \<Rightarrow> string" where
  "collapse_runs [] = []"
| "collapse_runs [c] = [if is_alnum c then c else CHR ''-'']"
| "collapse_runs (c # d # cs) =
     (if is_alnum c then c # collapse_runs (d # cs)
      else if is_alnum d then CHR ''-'' # collapse_runs (d # cs)
      else collapse_runs (d # cs))"

definition is_hyphen :: "char \<Rightarrow> bool" where
  "is_hyphen c = (c = CHR ''-'')"

definition strip_hyphens :: "string \<Rightarrow> string" where
  "strip_hyphens s = rev (dropWhile is_hyphen (rev (dropWhile is_hyphen s)))"

definition spec_slug :: "string \<Rightarrow> string" where
  "spec_slug s = strip_hyphens (collapse_runs (trim (toLowerCase s)))"

section \<open>Notions of the specification\<close>

text \<open>The id derived for a raw input: \<open>raw.id || slug(raw.name)\<close>.\<close>

definition derived_id :: "json \<Rightarrow> json" where
  "derived_id raw = or_else (field raw ''id'') (JStr (slug (field raw ''name'')))"


text \<open>The record carries the defaults of the normalizer in its defaulted fields.\<close>

definition has_defaults :: "json \<Rightarrow> bool" where
  "has_defaults x =
     (field x ''sweetness'' = JStr ''balanced'' \<and>
      field x ''ingredients'' = JArr [] \<and> field x ''base'' = JArr [] \<and>
      field x ''profile'' = JArr [] \<and> field x ''tags'' = JArr [] \<and>
      field x ''method'' = JStr [] \<and> field x ''glass'' = JStr [] \<and>
      field x ''garnish'' = JStr [])"

section \<open>Sample inputs\<close>

text \<open>A platform for the examples: a collation by code units, a store whose content
  is taken as already decoded, and a parser that knows the empty collection only.\<close>

fun code_compare :: "string \<Rightarrow> string \<Rightarrow> int" where
  "code_compare [] [] = 0"
| "code_compare [] (y # ys) = - 1"
| "code_compare (x # xs) [] = 1"
| "code_compare (x # xs) (y # ys) =
     (if char_code x < char_code y then - 1
      else if char_code y < char_code x then 1
      else code_compare xs ys)"

definition sample_platform :: platform where
  "sample_platform =
     \<lparr>localeCompare = code_compare,
      decode_base64 = (\<lambda>v. case v of JStr s \<Rightarrow> Some s | _ \<Rightarrow> None),
      JSON_parse = (\<lambda>s. if s = ''[]'' then Some (JArr []) else None)\<rparr>"

definition sample_env :: env where
  "sample_env =
     \<lparr>ADMIN_PASSWORD = Some ''secret'', GH_TOKEN = Some ''token'', GH_OWNER = Some ''owner'',
      GH_REPO = Some ''site'', GH_BRANCH = None, GH_FILE = None, ALLOWED_ORIGIN = None\<rparr>"

text \<open>A store without the file, which accepts the write.\<close>

definition store_not_found :: remote where
  "store_not_found =
     \<lparr>get_result = Some \<lparr>res_status = 404, res_json = None, res_text = ''Not Found''\<rparr>,
      put_result = Some \<lparr>res_status = 201, res_json = None, res_text = []\<rparr>\<rparr>"

definition post :: "json \<Rightarrow> request" where
  "post body = \<lparr>req_method = ''POST'', req_origin = None, req_body = body\<rparr>"

definition martini :: json where
  "martini = JObj [(''name'', JStr ''Martini'')]"

definition negroni :: json where
  "negroni = JObj
     [(''name'', JStr ''Negroni''),
      (''base'', JArr [JStr ''GIN'', JStr ''Campari'']),
      (''profile'', JStr ''bitter''),
      (''ingredients'',
         JArr [JArr [JStr ''1 oz'', JStr ''Gin''],
               JObj [(''amount'', JStr ''1 oz''), (''item'', JStr ''Campari'')],
               JStr ''Orange peel'']),
      (''glass'', JStr ''rocks''),
      (''tags'', JArr [JStr ''classic''])]"

text \<open>What the batch handler makes of it.\<close>

definition negroni_batch :: json where
  "negroni_batch = JObj
     [(''id'', JStr ''negroni''), (''name'', JStr ''Negroni''),
      (''base'', JArr [JStr ''gin'', JStr ''campari'']),
      (''profile'', JArr [JStr ''bitter'']),
      (''sweetness'', JStr ''balanced''),
      (''ingredients'',
         JArr [JArr [JStr ''1 oz'', JStr ''Gin''],
               JArr [JStr ''1 oz'', JStr ''Campari''],
               JArr [JStr [], JStr ''Orange peel'']]),
      (''method'', JStr []), (''glass'', JStr ''rocks''),
      (''garnish'', JStr []), (''tags'', JArr [JStr ''classic''])]"

text \<open>What the single-recipe handler makes of it.\<close>

definition negroni_single :: json where
  "negroni_single = JObj
     [(''id'', JStr ''negroni''), (''name'', JStr ''Negroni''),
      (''base'', JArr [JStr ''gin'', JStr ''campari'']),
      (''profile'', JArr [JStr ''bitter'']),
      (''sweetness'', JStr ''balanced''),
      (''ingredients'',
         JArr [JArr [JStr ''1 oz'', JStr ''Gin''],
               JArr [JStr ''1 oz'', JStr ''Campari''],
               JArr [JStr [], JStr []]]),
      (''method'', JStr []), (''glass'', JStr ''rocks''),
      (''garnish'', JStr []), (''tags'', JArr [JStr ''classic''])]"

text \<open>The record that both handlers make of the minimal input \<open>{name: "Martini"}\<close>.\<close>

definition martini_defaults :: json where
  "martini_defaults = JObj
     [(''id'', JStr ''martini''), (''name'', JStr ''Martini''), (''base'', JArr []),
      (''profile'', JArr []), (''sweetness'', JStr ''balanced''), (''ingredients'', JArr []),
      (''method'', JStr []), (''glass'', JStr []), (''garnish'', JStr []), (''tags'', JArr [])]"

text \<open>A fully populated record stored under the same id, with a field of its own.\<close>

definition martini_stored :: json where
  "martini_stored = JObj
     [(''id'', JStr ''martini''), (''name'', JStr ''Martini''),
      (''base'', JArr [JStr ''gin'']), (''profile'', JArr [JStr ''dry'']),
      (''sweetness'', JStr ''dry''),
      (''ingredients'', JArr [JArr [JStr ''2 oz'', JStr ''Gin''], JArr [JStr ''1 oz'', JStr ''Vermouth'']]),
      (''method'', JStr ''Stir''), (''glass'', JStr ''coupe''), (''garnish'', JStr ''olive''),
      (''tags'', JArr [JStr ''classic'']), (''rating'', JNum 5)]"

text \<open>The stored record after the upsert of the minimal input: only its own \<open>rating\<close>
  is left of it.\<close>

definition martini_merged :: json where
  "martini_merged = JObj
     [(''id'', JStr ''martini''), (''name'', JStr ''Martini''), (''base'', JArr []),
      (''profile'', JArr []), (''sweetness'', JStr ''balanced''), (''ingredients'', JArr []),
      (''method'', JStr []), (''glass'', JStr []), (''garnish'', JStr []), (''tags'', JArr []),
      (''rating'', JNum 5)]"











section \<open>The slug\<close>

lemma hyphen_not_alnum: "\<not> is_alnum CHR ''-''"
  by (simp add: is_alnum_def char_code_def)

lemma space_not_alnum: "is_space c \<Longrightarrow> \<not> is_alnum c"
  by (auto simp: is_space_def is_alnum_def)

lemma collapse_nonalnum:
  "\<not> is_alnum c \<Longrightarrow>
   collapse_runs (c # cs) = CHR ''-'' # collapse_runs (dropWhile (\<lambda>d. \<not> is_alnum d) cs)"
  by (induction cs arbitrary: c) auto

lemma replace_runs_collapse: "replace_runs s = collapse_runs s"
proof (induction s rule: replace_runs.induct)
  case 1
  show ?case by simp
next
  case (2 c cs)
  show ?case
  proof (cases "is_alnum c")
    case True
    with 2 show ?thesis by (cases cs) auto
  next
    case False
    with 2 show ?thesis by (simp add: collapse_nonalnum)
  qed
qed

text \<open>Characters dropped in front of the input only change the hyphens in front of the
  output.\<close>

lemma dropWhile_hyphen_Cons: "dropWhile is_hyphen (CHR ''-'' # xs) = dropWhile is_hyphen xs"
  by (simp add: is_hyphen_def)

lemma drop_runs_nonalnum:
  "dropWhile is_hyphen (replace_runs (dropWhile (\<lambda>d. \<not> is_alnum d) u)) =
   dropWhile is_hyphen (replace_runs u)"
  by (cases u) (simp_all add: is_hyphen_def)

lemma drop_runs_prefix:
  "(\<And>c. P c \<Longrightarrow> \<not> is_alnum c) \<Longrightarrow>
   dropWhile is_hyphen (replace_runs (dropWhile P t)) = dropWhile is_hyphen (replace_runs t)"
proof (induction t)
  case Nil
  show ?case by simp
next
  case (Cons c cs)
  show ?case
  proof (cases "P c")
    case True
    then have "\<not> is_alnum c" using Cons.prems by blast
    then have a: "replace_runs (c # cs) =
        CHR ''-'' # replace_runs (dropWhile (\<lambda>d. \<not> is_alnum d) cs)"
      by simp
    have b: "dropWhile P (c # cs) = dropWhile P cs" using True by simp
    have "dropWhile is_hyphen (replace_runs (dropWhile P cs)) = dropWhile is_hyphen (replace_runs cs)"
      using Cons.prems by (rule Cons.IH)
    then show ?thesis
      unfolding a b dropWhile_hyphen_Cons drop_runs_nonalnum .
  next
    case False
    then show ?thesis by simp
  qed
qed

lemma last_dropWhile_ne: "dropWhile P xs \<noteq> [] \<Longrightarrow> last (dropWhile P xs) = last xs"
proof -
  assume ne: "dropWhile P xs \<noteq> []"
  have "last xs = last (takeWhile P xs @ dropWhile P xs)" by simp
  also have "\<dots> = last (dropWhile P xs)" using ne by (rule last_appendR)
  finally show ?thesis by simp
qed

lemma replace_runs_snoc:
  "replace_runs (s @ [c]) =
     (if is_alnum c then replace_runs s @ [c]
      else if s \<noteq> [] \<and> \<not> is_alnum (last s) then replace_runs s
      else replace_runs s @ [CHR ''-''])"
proof (induction s rule: replace_runs.induct)
  case 1
  show ?case by simp
next
  case (2 a as)
  show ?case
  proof (cases "is_alnum a")
    case True
    with 2 show ?thesis by (cases as) auto
  next
    case na: False
    let ?N = "\<lambda>d. \<not> is_alnum d"
    have step: "replace_runs ((a # as) @ [c]) = CHR ''-'' # replace_runs (dropWhile ?N (as @ [c]))"
      using na by simp
    have base: "replace_runs (a # as) = CHR ''-'' # replace_runs (dropWhile ?N as)"
      using na by simp
    show ?thesis
    proof (cases "\<forall>x\<in>set as. \<not> is_alnum x")
      case True
      then have d1: "dropWhile ?N as = []" by simp
      have d2: "dropWhile ?N (as @ [c]) = (if is_alnum c then [c] else [])"
        using True by (simp add: dropWhile_append2)
      have l: "\<not> is_alnum (last (a # as))" using True na by simp
      show ?thesis unfolding step base d1 d2 using l by simp
    next
      case False
      then obtain x where x: "x \<in> set as" "is_alnum x" by blast
      then have dw: "dropWhile ?N (as @ [c]) = dropWhile ?N as @ [c]"
        by (simp add: dropWhile_append1)
      have ne: "dropWhile ?N as \<noteq> []" using x by (auto simp: dropWhile_eq_Nil_conv)
      have la: "last (dropWhile ?N as) = last as"
        using ne by (rule last_dropWhile_ne)
      have asne: "as \<noteq> []" using x by auto
      have ih: "replace_runs (dropWhile ?N as @ [c]) =
        (if is_alnum c then replace_runs (dropWhile ?N as) @ [c]
         else if \<not> is_alnum (last as) then replace_runs (dropWhile ?N as)
         else replace_runs (dropWhile ?N as) @ [CHR ''-''])"
        using 2(2)[OF na] ne la by simp
      show ?thesis unfolding step base dw ih using asne by simp
    qed
  qed
qed

lemma replace_runs_rev: "replace_runs (rev s) = rev (replace_runs s)"
proof (induction s)
  case Nil
  show ?case by simp
next
  case (Cons c cs)
  have snoc: "replace_runs (rev (c # cs)) =
     (if is_alnum c then rev (replace_runs cs) @ [c]
      else if cs \<noteq> [] \<and> \<not> is_alnum (hd cs) then rev (replace_runs cs)
      else rev (replace_runs cs) @ [CHR ''-''])"
    using replace_runs_snoc[of "rev cs" c] Cons.IH by (simp add: last_rev)
  show ?case
  proof (cases "is_alnum c")
    case True
    with snoc show ?thesis by simp
  next
    case False
    show ?thesis
    proof (cases cs)
      case Nil
      with False snoc show ?thesis by simp
    next
      case (Cons d ds)
      with False snoc show ?thesis by simp
    qed
  qed
qed

lemma drop_both_commute:
  "dropWhile P (rev (dropWhile P (rev u))) = rev (dropWhile P (rev (dropWhile P u)))"
proof (induction u)
  case Nil
  show ?case by simp
next
  case (Cons c cs)
  show ?case
  proof (cases "P c")
    case True
    show ?thesis
    proof (cases "\<forall>x\<in>set cs. P x")
      case all: True
      then have d1: "dropWhile P (rev cs @ [c]) = []" using True by simp
      have d2: "dropWhile P (c # cs) = []" using all True by simp
      show ?thesis unfolding d2 by (simp only: rev.simps d1 dropWhile.simps)
    next
      case False
      then have "dropWhile P (rev cs @ [c]) = dropWhile P (rev cs) @ [c]"
        by (auto simp: dropWhile_append1)
      then show ?thesis using True Cons by simp
    qed
  next
    case False
    have "dropWhile P (rev cs @ [c]) = dropWhile P (rev cs) @ [c]"
      using False by (simp add: dropWhile_append3)
    then show ?thesis using False by simp
  qed
qed

lemma drop_runs_suffix:
  assumes "\<And>c. P c \<Longrightarrow> \<not> is_alnum c"
  shows "dropWhile is_hyphen (rev (replace_runs (rev (dropWhile P (rev t))))) =
         dropWhile is_hyphen (rev (replace_runs t))"
proof -
  have "rev (replace_runs (rev (dropWhile P (rev t)))) = replace_runs (dropWhile P (rev t))"
    by (simp add: replace_runs_rev)
  moreover have "dropWhile is_hyphen (replace_runs (dropWhile P (rev t))) =
      dropWhile is_hyphen (replace_runs (rev t))"
    using assms by (rule drop_runs_prefix)
  ultimately show ?thesis by (simp add: replace_runs_rev)
qed

text \<open>Trimming first makes no difference once the hyphens at both ends are gone.\<close>

lemma strip_trim:
  "strip_hyphens (replace_runs (trim t)) = strip_hyphens (replace_runs t)"
proof -
  let ?S = is_space and ?h = is_hyphen
  have "strip_hyphens (replace_runs (trim t))
      = rev (dropWhile ?h (rev (dropWhile ?h (replace_runs (rev (dropWhile ?S (rev (dropWhile ?S t))))))))"
    by (simp add: strip_hyphens_def trim_def)
  also have "\<dots> = dropWhile ?h (rev (dropWhile ?h (rev (replace_runs (rev (dropWhile ?S (rev (dropWhile ?S t))))))))"
    by (simp add: drop_both_commute)
  also have "\<dots> = dropWhile ?h (rev (dropWhile ?h (rev (replace_runs (dropWhile ?S t)))))"
    using drop_runs_suffix[of ?S "dropWhile ?S t"] space_not_alnum by simp
  also have "\<dots> = rev (dropWhile ?h (rev (dropWhile ?h (replace_runs (dropWhile ?S t)))))"
    by (simp add: drop_both_commute)
  also have "\<dots> = rev (dropWhile ?h (rev (dropWhile ?h (replace_runs t))))"
    using drop_runs_prefix[of ?S t] space_not_alnum by simp
  finally show ?thesis by (simp add: strip_hyphens_def)
qed

text \<open>The output of the first replacement has no two hyphens in a row at its start, and
  so none at its end.\<close>

lemma replace_runs_no_double:
  "replace_runs s = a # b # rest \<Longrightarrow> \<not> (a = CHR ''-'' \<and> b = CHR ''-'')"
proof (induction s arbitrary: a b rest rule: replace_runs.induct)
  case 1
  then show ?case by simp
next
  case (2 c cs)
  show ?case
  proof (cases "is_alnum c")
    case True
    with 2(3) have "a = c" by simp
    with True show ?thesis using hyphen_not_alnum by auto
  next
    case False
    with 2(3) have eq: "replace_runs (dropWhile (\<lambda>d. \<not> is_alnum d) cs) = b # rest" by simp
    have "is_alnum b"
    proof (cases "dropWhile (\<lambda>d. \<not> is_alnum d) cs")
      case Nil
      with eq show ?thesis by simp
    next
      case (Cons d ds)
      then have "is_alnum d" using hd_dropWhile[of "\<lambda>d. \<not> is_alnum d" cs] by auto
      with eq Cons show ?thesis by simp
    qed
    then show ?thesis using hyphen_not_alnum by auto
  qed
qed

lemma dropWhile_one_hyphen:
  assumes "\<And>a b rest. u = a # b # rest \<Longrightarrow> \<not> (a = CHR ''-'' \<and> b = CHR ''-'')"
  shows "dropWhile is_hyphen u = (case u of c # cs \<Rightarrow> if c = CHR ''-'' then cs else u | [] \<Rightarrow> [])"
proof (cases u)
  case Nil
  then show ?thesis by simp
next
  case (Cons c cs)
  show ?thesis
  proof (cases cs)
    case Nil
    with Cons show ?thesis by (simp add: is_hyphen_def)
  next
    case (Cons d ds)
    with \<open>u = c # cs\<close> assms[of c d ds] show ?thesis by (auto simp: is_hyphen_def)
  qed
qed

lemma strip_ends_runs: "strip_ends (replace_runs s) = strip_hyphens (replace_runs s)"
proof -
  let ?u = "replace_runs s"
  define s1 where "s1 = (case ?u of c # cs \<Rightarrow> if c = CHR ''-'' then cs else ?u | [] \<Rightarrow> [])"
  have head_eq: "dropWhile is_hyphen ?u = s1"
    unfolding s1_def by (rule dropWhile_one_hyphen) (rule replace_runs_no_double)
  have suffix: "\<exists>p. ?u = p @ s1"
  proof (cases ?u)
    case Nil
    then show ?thesis by (simp add: s1_def)
  next
    case (Cons c cs)
    show ?thesis
    proof (cases "c = CHR ''-''")
      case True
      with Cons have "?u = [c] @ s1" by (simp add: s1_def)
      then show ?thesis by blast
    next
      case False
      with Cons have "?u = [] @ s1" by (simp add: s1_def)
      then show ?thesis by blast
    qed
  qed
  then obtain p where p: "?u = p @ s1" by blast
  have tail_eq: "dropWhile is_hyphen (rev s1) =
      (case rev s1 of c # cs \<Rightarrow> if c = CHR ''-'' then cs else rev s1 | [] \<Rightarrow> [])"
  proof (rule dropWhile_one_hyphen)
    fix a b rest
    assume "rev s1 = a # b # rest"
    then have "replace_runs (rev s) = a # b # (rest @ rev p)"
      using p by (simp add: replace_runs_rev)
    then show "\<not> (a = CHR ''-'' \<and> b = CHR ''-'')" by (rule replace_runs_no_double)
  qed
  have "rev (dropWhile is_hyphen (rev s1)) =
      (if s1 \<noteq> [] \<and> last s1 = CHR ''-'' then butlast s1 else s1)"
  proof (cases s1 rule: rev_cases)
    case Nil
    then show ?thesis by simp
  next
    case (snoc ys y)
    then show ?thesis unfolding tail_eq by simp
  qed
  then show ?thesis
    unfolding strip_hyphens_def head_eq by (simp add: strip_ends_def s1_def Let_def)
qed

lemma slug_string: "slug (JStr s) = strip_ends (replace_runs (trim (toLowerCase s)))"
  by (simp add: slug_def or_else_def)

lemma slugify_slug: "truthy v \<Longrightarrow> slugify v = slug v"
proof -
  assume "truthy v"
  then have "slug v = strip_ends (replace_runs (trim (toLowerCase (js_String v))))"
    by (simp add: slug_def or_else_def)
  then show ?thesis
    by (simp add: slugify_def strip_ends_runs strip_trim)
qed

text \<open>
  Claim C8. The slug function lowercases its input, trims it, collapses every run of
  non-alphanumeric characters to a single hyphen and strips leading and trailing hyphens:
  on every string, \<open>slug\<close> of the batch handler and \<open>slugify\<close> of the single-recipe handler
  (which has no \<open>trim\<close> of its own) both compute the slug as the specification words it.
  In particular "Old Fashioned" gives "old-fashioned" and "  A & B!! " gives "a-b", in
  both handlers.
\<close>

theorem slug_as_specified:
  "slug (JStr s) = spec_slug s \<and> slugify (JStr s) = spec_slug s \<and>
   slug (JStr ''Old Fashioned'') = ''old-fashioned'' \<and>
   slug (JStr ''  A & B!! '') = ''a-b'' \<and>
   slugify (JStr ''Old Fashioned'') = ''old-fashioned'' \<and>
   slugify (JStr ''  A & B!! '') = ''a-b''"
proof -
  have "slug (JStr s) = spec_slug s"
    by (simp add: slug_string spec_slug_def strip_ends_runs replace_runs_collapse [symmetric])
  moreover have "slugify (JStr s) = spec_slug s"
    by (simp add: slugify_def spec_slug_def strip_ends_runs strip_trim
        replace_runs_collapse [symmetric])
  moreover have "slug (JStr ''Old Fashioned'') = ''old-fashioned''" by code_simp
  moreover have "slug (JStr ''  A & B!! '') = ''a-b''" by code_simp
  moreover have "slugify (JStr ''Old Fashioned'') = ''old-fashioned''" by code_simp
  moreover have "slugify (JStr ''  A & B!! '') = ''a-b''" by code_simp
  ultimately show ?thesis by blast
qed

section \<open>Authentication and input\<close>

lemma authorized_iff:
  "authorized e password \<longleftrightarrow> (\<exists>s. s \<noteq> [] \<and> password = JStr s \<and> ADMIN_PASSWORD e = Some s)"
  unfolding authorized_def env_value_def
  by (cases password; cases "ADMIN_PASSWORD e") auto

lemma incoming_empty_iff:
  "incoming_of body = [] \<longleftrightarrow>
   (field body ''recipes'' = JArr [] \<or>
    (\<not> isArray (field body ''recipes'') \<and> \<not> truthy (field body ''recipe'')))"
  by (cases "field body ''recipes''") (auto simp: incoming_of_def)

lemma normalize_id:
  "normalize_raw r = Inr n \<Longrightarrow>
   field n ''id'' = (if truthy (field r ''id'') then field r ''id'' else JStr (slug (field r ''name'')))"
  by (auto simp: normalize_raw_def Let_def or_else_def split: if_splits sum.splits)

lemma normalized_id: "normalized r = Inr n \<Longrightarrow> field n ''id'' = JStr (slugify (field r ''name''))"
  by (auto simp: normalized_def Let_def split: if_splits sum.splits json.splits)

text \<open>
  Claim C4 (amended). Authentication succeeds iff the supplied password and the
  configured secret are both non-empty and equal. A request that fails it causes no read
  from and no write to the store, in either handler; a POST request that fails it (and,
  in the batch handler, passes the origin check) is answered 401 with the error code
  "unauthorized". A request with another method is answered before the password is looked
  at.
\<close>

theorem auth_gate:
  "(authorized e password \<longleftrightarrow> (\<exists>s. s \<noteq> [] \<and> password = JStr s \<and> ADMIN_PASSWORD e = Some s)) \<and>
   (\<not> authorized e (field (body_of req) ''password'') \<longrightarrow>
      snd (handler pf e rem req) = [] \<and> snd (handler1 pf e rem req) = [] \<and>
      (req_method req = ''POST'' \<and> \<not> forbidden_origin e req \<longrightarrow>
         handler pf e rem req = (json_error 401 ''unauthorized'', [])) \<and>
      (req_method req = ''POST'' \<longrightarrow>
         handler1 pf e rem req = (json_error 401 ''unauthorized'', [])))"
  using authorized_iff[of e password] by (simp add: handler_def handler1_def)

text \<open>A POST with a wrong password.\<close>

theorem auth_gate_witness:
  "\<not> authorized sample_env (field (body_of (post (JObj [(''password'', JStr ''guess''), (''recipe'', martini)]))) ''password'') \<and>
   req_method (post (JObj [(''password'', JStr ''guess''), (''recipe'', martini)])) = ''POST'' \<and>
   \<not> forbidden_origin sample_env (post (JObj [(''password'', JStr ''guess''), (''recipe'', martini)])) \<and>
   handler sample_platform sample_env store_not_found (post (JObj [(''password'', JStr ''guess''), (''recipe'', martini)]))
     = (json_error 401 ''unauthorized'', []) \<and>
   handler1 sample_platform sample_env store_not_found (post (JObj [(''password'', JStr ''guess''), (''recipe'', martini)]))
     = (json_error 401 ''unauthorized'', [])"
proof -
  let ?req = "post (JObj [(''password'', JStr ''guess''), (''recipe'', martini)])"
  have a: "\<not> authorized sample_env (field (body_of ?req) ''password'')"
    by (simp add: authorized_def sample_env_def body_of_def post_def or_else_def env_value_def)
  have m: "req_method ?req = ''POST''" by (simp add: post_def)
  have o: "\<not> forbidden_origin sample_env ?req"
    by (simp add: forbidden_origin_def sample_env_def post_def env_or_def)
  show ?thesis
    using auth_gate[of sample_env JUndef ?req sample_platform store_not_found] a m o by simp
qed

text \<open>A GET request with a wrong password is answered 405, not 401.\<close>

theorem auth_every_request_counterexample:
  "\<not> authorized sample_env
       (field (body_of \<lparr>req_method = ''GET'', req_origin = None, req_body = JObj [(''password'', JStr ''guess'')]\<rparr>) ''password'') \<and>
   handler sample_platform sample_env store_not_found
       \<lparr>req_method = ''GET'', req_origin = None, req_body = JObj [(''password'', JStr ''guess'')]\<rparr>
     = (json_error 405 ''method-not-allowed'', []) \<and>
   handler1 sample_platform sample_env store_not_found
       \<lparr>req_method = ''GET'', req_origin = None, req_body = JObj [(''password'', JStr ''guess'')]\<rparr>
     = (json_error 405 ''method-not-allowed'', []) \<and>
   json_error 405 ''method-not-allowed'' \<noteq> json_error 401 ''unauthorized''"
  by (simp add: authorized_def sample_env_def body_of_def or_else_def env_value_def handler_def handler1_def json_error_def)

text \<open>
  Claim C10. In the batch handler, whenever the body's \<open>recipes\<close> is an array the
  \<open>recipe\<close> field is ignored: the inputs are the array's elements, and the handler
  answers as it does to the body without \<open>recipe\<close>. In particular a body with
  \<open>recipes: []\<close> is rejected with 400 and the error code "no-recipes", whatever its
  \<open>recipe\<close>.
\<close>

theorem recipes_array_wins:
  "field (body_of req) ''recipes'' = JArr xs \<Longrightarrow>
   incoming_of (body_of req) = xs \<and>
   handler pf e rem req =
     handler pf e rem (req\<lparr>req_body := JObj [(''password'', field (body_of req) ''password''), (''recipes'', JArr xs)]\<rparr>) \<and>
   (xs = [] \<and> req_method req = ''POST'' \<and> \<not> forbidden_origin e req \<and>
      authorized e (field (body_of req) ''password'') \<longrightarrow>
      handler pf e rem req = (json_error 400 ''no-recipes'', []))"
  by (simp add: handler_def process_def incoming_of_def body_of_def or_else_def forbidden_origin_def Let_def)


text \<open>A valid \<open>recipe\<close> beside \<open>recipes: []\<close>.\<close>

theorem recipes_array_wins_witness:
  "field (body_of (post (JObj [(''password'', JStr ''secret''), (''recipe'', martini), (''recipes'', JArr [])]))) ''recipes'' = JArr [] \<and>
   usable martini \<and>
   authorized sample_env (JStr ''secret'') \<and>
   handler sample_platform sample_env store_not_found
     (post (JObj [(''password'', JStr ''secret''), (''recipe'', martini), (''recipes'', JArr [])]))
     = (json_error 400 ''no-recipes'', [])"
proof -
  let ?req = "post (JObj [(''password'', JStr ''secret''), (''recipe'', martini), (''recipes'', JArr [])])"
  have r: "field (body_of ?req) ''recipes'' = JArr []"
    by (simp add: body_of_def post_def or_else_def)
  have p: "field (body_of ?req) ''password'' = JStr ''secret''"
    by (simp add: body_of_def post_def or_else_def)
  have a: "authorized sample_env (JStr ''secret'')"
    by (simp add: authorized_def sample_env_def env_value_def)
  have m: "req_method ?req = ''POST''" by (simp add: post_def)
  have o: "\<not> forbidden_origin sample_env ?req"
    by (simp add: forbidden_origin_def sample_env_def post_def env_or_def)
  have u: "usable martini" by (simp add: usable_def martini_def)
  have "handler sample_platform sample_env store_not_found ?req = (json_error 400 ''no-recipes'', [])"
    using recipes_array_wins[OF r, of sample_platform sample_env store_not_found] p a m o by metis
  then show ?thesis using r a u by simp
qed

text \<open>
  Claim C3 (amended). For every authenticated POST request: the batch handler (once the
  origin check is passed) answers 400 with the error code "no-recipes" and makes no call
  to the store when there is no input, that is when \<open>recipes\<close> is an empty array, or
  is no array and \<open>recipe\<close> is falsy; the single-recipe handler answers 400 with
  "bad-recipe" and makes no call to the store when \<open>recipe\<close> is falsy or has no truthy
  \<open>name\<close>. Nothing is said of a non-empty batch none of whose elements is usable.
\<close>

theorem no_input_rejected:
  "req_method req = ''POST'' \<Longrightarrow> authorized e (field (body_of req) ''password'') \<Longrightarrow>
   (incoming_of (body_of req) = [] \<longleftrightarrow>
      (field (body_of req) ''recipes'' = JArr [] \<or>
       (\<not> isArray (field (body_of req) ''recipes'') \<and> \<not> truthy (field (body_of req) ''recipe'')))) \<and>
   (\<not> forbidden_origin e req \<and> incoming_of (body_of req) = [] \<longrightarrow>
      handler pf e rem req = (json_error 400 ''no-recipes'', [])) \<and>
   (\<not> usable (field (body_of req) ''recipe'') \<longrightarrow>
      handler1 pf e rem req = (json_error 400 ''bad-recipe'', []))"
  using incoming_empty_iff[of "body_of req"]
  by (simp add: handler_def handler1_def process_def process1_def usable_def)

text \<open>A body with a password only.\<close>

theorem no_input_rejected_witness:
  "req_method (post (JObj [(''password'', JStr ''secret'')])) = ''POST'' \<and>
   authorized sample_env (field (body_of (post (JObj [(''password'', JStr ''secret'')]))) ''password'') \<and>
   \<not> forbidden_origin sample_env (post (JObj [(''password'', JStr ''secret'')])) \<and>
   incoming_of (body_of (post (JObj [(''password'', JStr ''secret'')]))) = [] \<and>
   \<not> usable (field (body_of (post (JObj [(''password'', JStr ''secret'')]))) ''recipe'') \<and>
   handler sample_platform sample_env store_not_found (post (JObj [(''password'', JStr ''secret'')]))
     = (json_error 400 ''no-recipes'', []) \<and>
   handler1 sample_platform sample_env store_not_found (post (JObj [(''password'', JStr ''secret'')]))
     = (json_error 400 ''bad-recipe'', [])"
proof -
  let ?req = "post (JObj [(''password'', JStr ''secret'')])"
  have m: "req_method ?req = ''POST''" by (simp add: post_def)
  have a: "authorized sample_env (field (body_of ?req) ''password'')"
    by (simp add: authorized_def sample_env_def env_value_def body_of_def post_def or_else_def)
  have o: "\<not> forbidden_origin sample_env ?req"
    by (simp add: forbidden_origin_def sample_env_def post_def env_or_def)
  have i: "incoming_of (body_of ?req) = []"
    by (simp add: incoming_of_def body_of_def post_def or_else_def)
  have u: "\<not> usable (field (body_of ?req) ''recipe'')"
    by (simp add: usable_def body_of_def post_def or_else_def)
  show ?thesis
    using no_input_rejected[OF m a, of sample_platform store_not_found] m a o i u by simp
qed

text \<open>The batch \<open>recipes: [{}]\<close> has no usable element, and yet the batch handler
  reads the store, commits the collection and answers 200 with count 0.\<close>

theorem unusable_batch_counterexample:
  "authorized sample_env (JStr ''secret'') \<and>
   filter usable (incoming_of (JObj [(''password'', JStr ''secret''), (''recipes'', JArr [JObj []])])) = [] \<and>
   handler sample_platform sample_env store_not_found
     (post (JObj [(''password'', JStr ''secret''), (''recipes'', JArr [JObj []])]))
   = (success 0 [],
      [Get ''custom-recipes.json'' ''main'',
       Put ''custom-recipes.json''
         \<lparr>pb_message = ''Upsert 0 recipes'', pb_content = [], pb_branch = ''main'', pb_sha = None\<rparr>])"
  by code_simp

section \<open>The canonical id\<close>

text \<open>
  Claim C2 (amended). In the batch handler the id that \<open>normalize\<close> assigns is the raw
  \<open>id\<close> when that is truthy, and the slug of the raw name otherwise. In the
  single-recipe handler the id is always the slug of the raw name (which the handler has
  checked to be truthy), whatever the raw \<open>id\<close>.
\<close>

theorem canonical_id:
  "(normalize_raw r = Inr n \<longrightarrow>
      field n ''id'' = (if truthy (field r ''id'') then field r ''id'' else JStr (slug (field r ''name'')))) \<and>
   (normalized r = Inr n \<longrightarrow>
      field n ''id'' = JStr (slugify (field r ''name'')) \<and>
      (truthy (field r ''name'') \<longrightarrow> field n ''id'' = JStr (slug (field r ''name''))))"
  using normalize_id[of r n] normalized_id[of r n] slugify_slug[of "field r ''name''"] by auto

text \<open>A raw record with an id of its own, in the batch handler.\<close>

theorem canonical_id_witness:
  "normalize_raw (JObj [(''id'', JStr ''house-martini''), (''name'', JStr ''Martini'')]) =
     Inr (JObj [(''id'', JStr ''house-martini''), (''name'', JStr ''Martini''), (''base'', JArr []),
                (''profile'', JArr []), (''sweetness'', JStr ''balanced''), (''ingredients'', JArr []),
                (''method'', JStr []), (''glass'', JStr []), (''garnish'', JStr []), (''tags'', JArr [])]) \<and>
   field (JObj [(''id'', JStr ''house-martini''), (''name'', JStr ''Martini''), (''base'', JArr []),
                (''profile'', JArr []), (''sweetness'', JStr ''balanced''), (''ingredients'', JArr []),
                (''method'', JStr []), (''glass'', JStr []), (''garnish'', JStr []), (''tags'', JArr [])]) ''id''
     = JStr ''house-martini''"
proof -
  let ?r = "JObj [(''id'', JStr ''house-martini''), (''name'', JStr ''Martini'')]"
  let ?n = "JObj [(''id'', JStr ''house-martini''), (''name'', JStr ''Martini''), (''base'', JArr []),
                (''profile'', JArr []), (''sweetness'', JStr ''balanced''), (''ingredients'', JArr []),
                (''method'', JStr []), (''glass'', JStr []), (''garnish'', JStr []), (''tags'', JArr [])]"
  have n: "normalize_raw ?r = Inr ?n" by code_simp
  show ?thesis using canonical_id[of ?r ?n] n by simp
qed

text \<open>The same raw record in the single-recipe handler: its id is dropped.\<close>

theorem single_id_counterexample:
  "truthy (field (JObj [(''id'', JStr ''house-martini''), (''name'', JStr ''Martini'')]) ''id'') \<and>
   normalized (JObj [(''id'', JStr ''house-martini''), (''name'', JStr ''Martini'')]) =
     Inr (JObj [(''id'', JStr ''martini''), (''name'', JStr ''Martini''), (''base'', JArr []),
                (''profile'', JArr []), (''sweetness'', JStr ''balanced''), (''ingredients'', JArr []),
                (''method'', JStr []), (''glass'', JStr []), (''garnish'', JStr []), (''tags'', JArr [])]) \<and>
   JStr ''martini'' \<noteq> field (JObj [(''id'', JStr ''house-martini''), (''name'', JStr ''Martini'')]) ''id''"
  by code_simp

section \<open>Normalization is idempotent\<close>

lemma or_else_idem: "or_else (or_else a b) b = or_else a b"
  by (simp add: or_else_def)

lemma wrap_array_idem: "wrap_array (wrap_array v) = wrap_array v"
  by (simp add: wrap_array_def)

lemma char_code_char_of: "n < 256 \<Longrightarrow> char_code (char_of n) = n"
  by (simp add: char_code_def)

lemma lower_char_idem: "lower_char (lower_char c) = lower_char c"
proof (cases "(65 \<le> char_code c \<and> char_code c \<le> 90) \<or>
    (192 \<le> char_code c \<and> char_code c \<le> 222 \<and> char_code c \<noteq> 215)")
  case True
  define m where "m = char_code c + 32"
  have l: "lower_char c = char_of m" using True by (simp add: lower_char_def m_def)
  have "m < 256" using True by (auto simp: m_def)
  then have e: "char_code (char_of m) = m" by (rule char_code_char_of)
  have "\<not> ((65 \<le> m \<and> m \<le> 90) \<or> (192 \<le> m \<and> m \<le> 222 \<and> m \<noteq> 215))"
    using True unfolding m_def by arith
  then have "lower_char (char_of m) = char_of m"
    unfolding lower_char_def e by simp
  then show ?thesis unfolding l .
next
  case False
  then have "lower_char c = c" unfolding lower_char_def by (rule if_not_P)
  then show ?thesis by simp
qed

lemma toLowerCase_idem: "toLowerCase (toLowerCase s) = toLowerCase s"
  by (simp add: toLowerCase_def lower_char_idem)

lemma lower_base_idem: "lower_base (lower_base b) = lower_base b"
  by (simp add: lower_base_def toLowerCase_idem)

lemma ingredient_pair_idem: "ingredient_pair (ingredient_pair p) = ingredient_pair p"
  by (cases p) (simp_all add: at_index_def or_else_idem or_else_def)

lemma map_array_base_idem:
  "map_array lower_base (or_else v (JArr [])) = Inr b \<Longrightarrow>
   map_array lower_base (or_else b (JArr [])) = Inr b"
  by (cases "or_else v (JArr [])") (auto simp: or_else_def[of b] lower_base_idem)

lemma ingredient_pair1_is_array: "ingredient_pair1 p = Inr q \<Longrightarrow> isArray q"
  by (auto simp: ingredient_pair1_def split: if_splits)

lemma map_throwing_idem:
  "map_throwing ingredient_pair1 ps = Inr qs \<Longrightarrow> map_throwing ingredient_pair1 qs = Inr qs"
proof (induction ps arbitrary: qs)
  case Nil
  then show ?case by simp
next
  case (Cons p ps)
  then obtain q qs' where q: "ingredient_pair1 p = Inr q" "map_throwing ingredient_pair1 ps = Inr qs'" "qs = q # qs'"
    by (auto split: sum.splits)
  have "ingredient_pair1 q = Inr q" using ingredient_pair1_is_array[OF q(1)] by (simp add: ingredient_pair1_def)
  then show ?case using Cons.IH[OF q(2)] q(3) by simp
qed

lemma normalize_idem: "normalize_raw r = Inr n \<Longrightarrow> normalize_raw n = Inr n"
proof -
  assume a: "normalize_raw r = Inr n"
  then have nn: "\<not> nullish r" by (auto simp: normalize_raw_def split: if_splits)
  from a nn obtain base where
    b: "map_array lower_base (or_else (field r ''base'') (JArr [])) = Inr base" and
    n: "n = JObj
                 [(''id'', or_else (field r ''id'') (JStr (slug (field r ''name'')))),
                  (''name'', field r ''name''),
                  (''base'', base),
                  (''profile'', wrap_array (field r ''profile'')),
                  (''sweetness'', or_else (field r ''sweetness'') (JStr ''balanced'')),
                  (''ingredients'', (case field r ''ingredients'' of
                 JArr ps \<Rightarrow> JArr (map ingredient_pair ps)
               | _ \<Rightarrow> JArr [])),
                  (''method'', or_else (field r ''method'') (JStr [])),
                  (''glass'', or_else (field r ''glass'') (JStr [])),
                  (''garnish'', or_else (field r ''garnish'') (JStr [])),
                  (''tags'', wrap_array (field r ''tags''))]"
    by (auto simp: normalize_raw_def Let_def split: sum.splits)
  have f: "field n ''id'' = or_else (field r ''id'') (JStr (slug (field r ''name'')))"
    "field n ''name'' = field r ''name''"
    "field n ''base'' = base"
    "field n ''profile'' = wrap_array (field r ''profile'')"
    "field n ''sweetness'' = or_else (field r ''sweetness'') (JStr ''balanced'')"
    "field n ''ingredients'' = (case field r ''ingredients'' of
                 JArr ps \<Rightarrow> JArr (map ingredient_pair ps)
               | _ \<Rightarrow> JArr [])"
    "field n ''method'' = or_else (field r ''method'') (JStr [])"
    "field n ''glass'' = or_else (field r ''glass'') (JStr [])"
    "field n ''garnish'' = or_else (field r ''garnish'') (JStr [])"
    "field n ''tags'' = wrap_array (field r ''tags'')"
    unfolding n by simp_all
  have i: "(case (case field r ''ingredients'' of JArr ps \<Rightarrow> JArr (map ingredient_pair ps) | _ \<Rightarrow> JArr []) of
        JArr ps \<Rightarrow> JArr (map ingredient_pair ps) | _ \<Rightarrow> JArr [])
      = (case field r ''ingredients'' of JArr ps \<Rightarrow> JArr (map ingredient_pair ps) | _ \<Rightarrow> JArr [])"
    by (cases "field r ''ingredients''") (simp_all add: ingredient_pair_idem)
  have nn': "\<not> nullish n" unfolding n by simp
  have "normalize_raw n = Inr (JObj
                 [(''id'', or_else (field r ''id'') (JStr (slug (field r ''name'')))),
                  (''name'', field r ''name''),
                  (''base'', base),
                  (''profile'', wrap_array (field r ''profile'')),
                  (''sweetness'', or_else (field r ''sweetness'') (JStr ''balanced'')),
                  (''ingredients'', (case field r ''ingredients'' of
                 JArr ps \<Rightarrow> JArr (map ingredient_pair ps)
               | _ \<Rightarrow> JArr [])),
                  (''method'', or_else (field r ''method'') (JStr [])),
                  (''glass'', or_else (field r ''glass'') (JStr [])),
                  (''garnish'', or_else (field r ''garnish'') (JStr [])),
                  (''tags'', wrap_array (field r ''tags''))])"
    unfolding normalize_raw_def[of n] Let_def f i
    using nn' map_array_base_idem[OF b] by (simp add: or_else_idem wrap_array_idem)
  then show ?thesis unfolding n .
qed


lemma normalized_idem: "normalized r = Inr n \<Longrightarrow> normalized n = Inr n"
proof -
  assume a: "normalized r = Inr n"
  then have nn: "\<not> nullish r" by (auto simp: normalized_def split: if_splits)
  from a nn obtain base where
    b: "map_array lower_base (or_else (field r ''base'') (JArr [])) = Inr base"
    by (auto simp: normalized_def split: sum.splits)
  from a nn b obtain ps where
    p: "or_else (field r ''ingredients'') (JArr []) = JArr ps"
    by (auto simp: normalized_def split: json.splits)
  from a nn b p obtain ings where
    i: "map_throwing ingredient_pair1 ps = Inr ings" and
    n: "n = JObj
            [(''id'', JStr (slugify (field r ''name''))),
             (''name'', field r ''name''),
             (''base'', base),
             (''profile'', wrap_array (field r ''profile'')),
             (''sweetness'', or_else (field r ''sweetness'') (JStr ''balanced'')),
             (''ingredients'', JArr ings),
             (''method'', or_else (field r ''method'') (JStr [])),
             (''glass'', or_else (field r ''glass'') (JStr [])),
             (''garnish'', or_else (field r ''garnish'') (JStr [])),
             (''tags'', or_else (field r ''tags'') (JArr []))]"
    by (auto simp: normalized_def split: sum.splits)
  have f: "field n ''name'' = field r ''name''"
    "field n ''base'' = base"
    "field n ''profile'' = wrap_array (field r ''profile'')"
    "field n ''sweetness'' = or_else (field r ''sweetness'') (JStr ''balanced'')"
    "field n ''ingredients'' = JArr ings"
    "field n ''method'' = or_else (field r ''method'') (JStr [])"
    "field n ''glass'' = or_else (field r ''glass'') (JStr [])"
    "field n ''garnish'' = or_else (field r ''garnish'') (JStr [])"
    "field n ''tags'' = or_else (field r ''tags'') (JArr [])"
    unfolding n by simp_all
  have nn': "\<not> nullish n" unfolding n by simp
  have ia: "or_else (JArr ings) (JArr []) = JArr ings" by (simp add: or_else_def)
  have "normalized n = Inr (JObj
            [(''id'', JStr (slugify (field r ''name''))),
             (''name'', field r ''name''),
             (''base'', base),
             (''profile'', wrap_array (field r ''profile'')),
             (''sweetness'', or_else (field r ''sweetness'') (JStr ''balanced'')),
             (''ingredients'', JArr ings),
             (''method'', or_else (field r ''method'') (JStr [])),
             (''glass'', or_else (field r ''glass'') (JStr [])),
             (''garnish'', or_else (field r ''garnish'') (JStr [])),
             (''tags'', or_else (field r ''tags'') (JArr []))])"
    unfolding normalized_def[of n] f ia
    using nn' map_array_base_idem[OF b] map_throwing_idem[OF i]
    by (simp add: or_else_idem wrap_array_idem)
  then show ?thesis unfolding n .
qed

text \<open>
  Claim C9. Normalization is idempotent: whenever normalizing a raw input produces a
  record, normalizing that record again yields the identical record, for \<open>normalize\<close> of
  the batch handler and for the \<open>normalized\<close> object of the single-recipe handler.
\<close>

theorem normalize_idempotent:
  "(normalize_raw r = Inr n \<longrightarrow> normalize_raw n = Inr n) \<and>
   (normalized r = Inr n \<longrightarrow> normalized n = Inr n)"
  using normalize_idem normalized_idem by blast

text \<open>A raw recipe with a name, an upper-case base, a scalar profile and the three forms
  of ingredient.\<close>

theorem normalize_idempotent_witness:
  "usable negroni \<and>
   normalize_raw negroni = Inr negroni_batch \<and> normalize_raw negroni_batch = Inr negroni_batch \<and>
   normalized negroni = Inr negroni_single \<and> normalized negroni_single = Inr negroni_single"
proof -
  have u: "usable negroni" by code_simp
  have a: "normalize_raw negroni = Inr negroni_batch" by code_simp
  have b: "normalized negroni = Inr negroni_single" by code_simp
  show ?thesis
    using normalize_idempotent[of negroni negroni_batch] normalize_idempotent[of negroni negroni_single]
      u a b by simp
qed

section \<open>The upsert\<close>

lemma findIndex_Some:
  "findIndex p xs = Inr (Some i) \<Longrightarrow>
   i < length xs \<and> p (xs ! i) = Inr True \<and> (\<forall>j<i. p (xs ! j) = Inr False)"
proof (induction xs arbitrary: i)
  case Nil
  then show ?case by simp
next
  case (Cons x xs)
  show ?case
  proof (cases "p x")
    case (Inl e)
    with Cons.prems show ?thesis by simp
  next
    case (Inr b)
    show ?thesis
    proof (cases b)
      case True
      with Inr Cons.prems show ?thesis by simp
    next
      case False
      with Inr Cons.prems obtain i' where i': "findIndex p xs = Inr (Some i')" "i = Suc i'"
        by (auto split: sum.splits option.splits)
      from Cons.IH[OF i'(1)] False Inr i'(2) show ?thesis
        by (auto simp: nth_Cons split: nat.splits)
    qed
  qed
qed


lemma map_of_set_prop: "map_of (set_prop k v kvs) = (map_of kvs)(k \<mapsto> v)"
  by (induction kvs) auto

lemma map_of_fold_set_prop:
  "map_of (foldl (\<lambda>acc kv. set_prop (fst kv) (snd kv) acc) acc kvs) = map_of acc ++ map_of (rev kvs)"
  by (induction kvs arbitrary: acc) (auto simp: map_of_set_prop)

lemma map_of_rev_distinct: "distinct (map fst kvs) \<Longrightarrow> map_of (rev kvs) = map_of kvs"
  by (rule map_of_inject_set[THEN iffD2]) (auto simp: distinct_rev rev_map[symmetric])

lemma spread_lookup:
  "distinct (map fst (own_props b)) \<Longrightarrow>
   map_of (own_props (spread a b)) k =
     (case map_of (own_props b) k of Some v \<Rightarrow> Some v | None \<Rightarrow> map_of (own_props a) k)"
  by (simp add: spread_def map_of_fold_set_prop map_of_rev_distinct map_add_def)

lemma field_spread:
  "distinct (map fst kvs) \<Longrightarrow> map_of kvs k = Some v \<Longrightarrow> field (spread a (JObj kvs)) k = v"
  using spread_lookup[of "JObj kvs" a k] by (simp add: spread_def)

lemma normalize_martini: "normalize_raw martini = Inr martini_defaults"
  by code_simp

lemma normalized_martini: "normalized martini = Inr martini_defaults"
  by code_simp

lemma upsert_found:
  "findIndex (matches (field n ''id'')) list = Inr (Some i) \<Longrightarrow>
   upsert list n = Inr (list[i := spread (list ! i) n])"
  by (simp add: upsert_def)

lemma upsert1_found:
  "findIndex (matches1 sl) list = Inr (Some i) \<Longrightarrow>
   upsert1 list sl n = Inr (list[i := spread (list ! i) n], True)"
  by (simp add: upsert1_def)

lemma martini_defaults_fields: "has_defaults (spread x martini_defaults)"
  unfolding martini_defaults_def has_defaults_def
  by (intro conjI field_spread) simp_all

lemma normalize_shape:
  "normalize_raw r = Inr n \<Longrightarrow>
   \<exists>kvs. n = JObj kvs \<and> distinct (map fst kvs) \<and>
     map_of kvs ''id'' = Some (derived_id r) \<and> map_of kvs ''name'' = Some (field r ''name'')"
  by (auto simp: normalize_raw_def derived_id_def Let_def split: if_splits sum.splits)

lemma normalized_shape:
  "normalized r = Inr n \<Longrightarrow> \<exists>kvs. n = JObj kvs \<and> distinct (map fst kvs)"
  by (auto simp: normalized_def split: if_splits sum.splits json.splits)

text \<open>
  Claim C1. When the candidate's id matches an existing record, the upsert replaces that
  record (and no other) by the shallow merge of the two in which the candidate's fields
  win and the other fields of the stored record survive. The normalizer populates every
  defaulted field, so the minimal input \<open>{name: "Martini"}\<close>, whose normalization is
  \<open>martini_defaults\<close> in both handlers, leaves a record whose sweetness is "balanced",
  whose ingredients, base, profile and tags are empty and whose method, glass and garnish
  are empty strings, whatever was stored. This holds for the batch handler's upsert and
  for the single-recipe handler's.
\<close>

theorem upsert_resets_defaults:
  "normalize_raw martini = Inr martini_defaults \<and> normalized martini = Inr martini_defaults \<and>
   (findIndex (matches (field n ''id'')) list = Inr (Some i) \<longrightarrow>
      (\<exists>list'. upsert list n = Inr list' \<and> length list' = length list \<and> i < length list \<and>
         (\<forall>j. j \<noteq> i \<longrightarrow> list' ! j = list ! j) \<and>
         (distinct (map fst (own_props n)) \<longrightarrow>
            (\<forall>k. map_of (own_props (list' ! i)) k =
               (case map_of (own_props n) k of Some v \<Rightarrow> Some v
                | None \<Rightarrow> map_of (own_props (list ! i)) k))) \<and>
         (n = martini_defaults \<longrightarrow> has_defaults (list' ! i)))) \<and>
   (findIndex (matches1 sl) list = Inr (Some i) \<longrightarrow>
      (\<exists>list'. upsert1 list sl n = Inr (list', True) \<and> length list' = length list \<and> i < length list \<and>
         (\<forall>j. j \<noteq> i \<longrightarrow> list' ! j = list ! j) \<and>
         (distinct (map fst (own_props n)) \<longrightarrow>
            (\<forall>k. map_of (own_props (list' ! i)) k =
               (case map_of (own_props n) k of Some v \<Rightarrow> Some v
                | None \<Rightarrow> map_of (own_props (list ! i)) k))) \<and>
         (n = martini_defaults \<longrightarrow> has_defaults (list' ! i)))) \<and>
   (normalize_raw r = Inr n \<or> normalized r = Inr n \<longrightarrow> distinct (map fst (own_props n)))"
proof (intro conjI impI)
  show "normalize_raw martini = Inr martini_defaults" by (rule normalize_martini)
  show "normalized martini = Inr martini_defaults" by (rule normalized_martini)
next
  assume f: "findIndex (matches (field n ''id'')) list = Inr (Some i)"
  then have i: "i < length list" using findIndex_Some by blast
  let ?l = "list[i := spread (list ! i) n]"
  have "upsert list n = Inr ?l" using f by (rule upsert_found)
  moreover have "?l ! i = spread (list ! i) n" using i by simp
  ultimately show "\<exists>list'. upsert list n = Inr list' \<and> length list' = length list \<and> i < length list \<and>
         (\<forall>j. j \<noteq> i \<longrightarrow> list' ! j = list ! j) \<and>
         (distinct (map fst (own_props n)) \<longrightarrow>
            (\<forall>k. map_of (own_props (list' ! i)) k =
               (case map_of (own_props n) k of Some v \<Rightarrow> Some v
                | None \<Rightarrow> map_of (own_props (list ! i)) k))) \<and>
         (n = martini_defaults \<longrightarrow> has_defaults (list' ! i))"
    using i by (auto simp: spread_lookup martini_defaults_fields)
next
  assume f: "findIndex (matches1 sl) list = Inr (Some i)"
  then have i: "i < length list" using findIndex_Some by blast
  let ?l = "list[i := spread (list ! i) n]"
  have "upsert1 list sl n = Inr (?l, True)" using f by (rule upsert1_found)
  moreover have "?l ! i = spread (list ! i) n" using i by simp
  ultimately show "\<exists>list'. upsert1 list sl n = Inr (list', True) \<and> length list' = length list \<and> i < length list \<and>
         (\<forall>j. j \<noteq> i \<longrightarrow> list' ! j = list ! j) \<and>
         (distinct (map fst (own_props n)) \<longrightarrow>
            (\<forall>k. map_of (own_props (list' ! i)) k =
               (case map_of (own_props n) k of Some v \<Rightarrow> Some v
                | None \<Rightarrow> map_of (own_props (list ! i)) k))) \<and>
         (n = martini_defaults \<longrightarrow> has_defaults (list' ! i))"
    using i by (auto simp: spread_lookup martini_defaults_fields)
next
  assume "normalize_raw r = Inr n \<or> normalized r = Inr n"
  then show "distinct (map fst (own_props n))"
    using normalize_shape[of r n] normalized_shape[of r n] by auto
qed

text \<open>A stored Martini with every field set, and the minimal input upserted onto it, in
  both handlers.\<close>

theorem upsert_resets_defaults_witness:
  "findIndex (matches (field martini_defaults ''id'')) [negroni_batch, martini_stored] = Inr (Some 1) \<and>
   upsert [negroni_batch, martini_stored] martini_defaults = Inr [negroni_batch, martini_merged] \<and>
   findIndex (matches1 (slugify (field martini ''name''))) [negroni_batch, martini_stored] = Inr (Some 1) \<and>
   upsert1 [negroni_batch, martini_stored] (slugify (field martini ''name'')) martini_defaults
     = Inr ([negroni_batch, martini_merged], True) \<and>
   has_defaults martini_merged \<and>
   field martini_stored ''sweetness'' = JStr ''dry'' \<and>
   field martini_merged ''rating'' = JNum 5"
proof -
  let ?list = "[negroni_batch, martini_stored]"
  have f: "findIndex (matches (field martini_defaults ''id'')) ?list = Inr (Some 1)" by code_simp
  have u: "upsert ?list martini_defaults = Inr [negroni_batch, martini_merged]" by code_simp
  have f1: "findIndex (matches1 (slugify (field martini ''name''))) ?list = Inr (Some 1)" by code_simp
  have u1: "upsert1 ?list (slugify (field martini ''name'')) martini_defaults
     = Inr ([negroni_batch, martini_merged], True)" by code_simp
  have "\<exists>list'. upsert ?list martini_defaults = Inr list' \<and> has_defaults (list' ! 1)"
    using upsert_resets_defaults[of martini_defaults ?list 1 "''martini''" martini] f by blast
  then have d: "has_defaults martini_merged" using u by auto
  have s: "field martini_stored ''sweetness'' = JStr ''dry''" by code_simp
  have r: "field martini_merged ''rating'' = JNum 5" by code_simp
  show ?thesis using f u f1 u1 d s r by simp
qed

section \<open>The count and the ids of a batch\<close>







section \<open>The version token of the commit\<close>













section \<open>Two inputs with the same derived id\<close>























end
